theory Spec2Isabelle
  imports Complex_Main
begin

section \<open>Community embedding notebook (come/com\_emb.ipynb): data model\<close>

text \<open>
  Exceptions of the notebook are values. \<open>NameError\<close> covers Python's NameError and its
  subclass UnboundLocalError, \<open>ValueError\<close> the conversion errors of \<open>int\<close>, \<open>dict\<close>,
  numpy's \<open>astype\<close> and of tensor construction, \<open>IndexError\<close> a \<open>pop\<close> from an empty
  list, \<open>TorchError\<close> the errors torch raises for an empty reduction or for shapes that
  cannot be broadcast, \<open>RuntimeError\<close> the error torch raises when a tensor that requires
  grad is converted to a numpy array.
\<close>

datatype error = NameError | ValueError | IndexError | TorchError | RuntimeError

text \<open>
  Tensor entries are real numbers; rounding is not modelled. A result that IEEE arithmetic
  makes non-finite (NaN from \<open>0/0\<close>, an infinity from \<open>a/0\<close> or \<open>log 0\<close>, NaN from the
  logarithm of a negative number) is \<open>None\<close>, and \<open>None\<close> is absorbing in every
  operation the notebook applies to it. A matrix is the list of its rows.
\<close>

type_synonym fl = "real option"
type_synonym 'a mat = "'a list list"

definition N :: nat where "N = 2708"
definition D :: nat where "D = 400"
definition K :: nat where "K = 7"
definition eps :: real where "eps = 1 / 1000000"
definition beta :: real where "beta = 1 / 10000"
definition batch_size :: nat where "batch_size = 300"

definition fl_add :: "fl \<Rightarrow> fl \<Rightarrow> fl" where
  "fl_add a b = (case a of None \<Rightarrow> None | Some x \<Rightarrow> (case b of None \<Rightarrow> None | Some y \<Rightarrow> Some (x + y)))"

definition fl_mul :: "fl \<Rightarrow> fl \<Rightarrow> fl" where
  "fl_mul a b = (case a of None \<Rightarrow> None | Some x \<Rightarrow> (case b of None \<Rightarrow> None | Some y \<Rightarrow> Some (x * y)))"

definition fl_div :: "real \<Rightarrow> real \<Rightarrow> fl" where
  \<comment> \<open>division of finite numbers: \<open>0/0\<close> is NaN and \<open>a/0\<close> an infinity\<close>
  "fl_div a b = (if b = 0 then None else Some (a / b))"

definition fl_div_real :: "fl \<Rightarrow> real \<Rightarrow> fl" where
  "fl_div_real a b = (case a of None \<Rightarrow> None | Some x \<Rightarrow> fl_div x b)"

definition fl_sum :: "fl list \<Rightarrow> fl" where
  "fl_sum xs = foldr fl_add xs (Some 0)"

definition finite_row :: "fl list \<Rightarrow> real list option" where
  "finite_row r = (if list_all (\<lambda>e. e \<noteq> None) r then Some (map the r) else None)"

definition finite_mat :: "fl mat \<Rightarrow> real mat option" where
  "finite_mat m = (if list_all (\<lambda>r. finite_row r \<noteq> None) m then Some (map (\<lambda>r. map the r) m) else None)"

section \<open>Utility functions\<close>

definition tmin :: "real list \<Rightarrow> real" where
  \<comment> \<open>\<open>torch.min\<close> of a non-empty tensor without NaN\<close>
  "tmin xs = foldl min (hd xs) (tl xs)"

definition tmax :: "real list \<Rightarrow> real" where
  "tmax xs = foldl max (hd xs) (tl xs)"

definition normalize :: "fl mat \<Rightarrow> error + real mat" where
  \<comment> \<open>\<open>torch.min\<close> raises on a tensor without elements. \<open>torch.min\<close> and \<open>torch.max\<close>
      propagate NaN, and \<open>NaN > 0\<close> is False, so a tensor holding a NaN takes the else
      branch. The else branch evaluates \<open>vector.size()\<close>: the parameter is \<open>v\<close>, and no
      cell of the notebook binds a name \<open>vector\<close>, so the lookup raises NameError.\<close>
  "normalize v =
     (if concat v = [] then Inl TorchError
      else case finite_mat v of
        None \<Rightarrow> Inl NameError
      | Some m \<Rightarrow>
          (let min_v = tmin (concat m);
               range_v = tmax (concat m) - min_v
           in if range_v > 0
              then Inr (map (map (\<lambda>e. (e - min_v) / range_v)) m)
              else Inl NameError))"

section \<open>K-Means\<close>

definition sqdist :: "real list \<Rightarrow> fl list \<Rightarrow> fl" where
  \<comment> \<open>\<open>((x_i - c_j) ** 2).sum(-1)\<close> for one sample and one centroid\<close>
  "sqdist xr cr = fl_sum (map2 (\<lambda>a b. fl_mul (fl_add (Some a) (map_option uminus b))
                                              (fl_add (Some a) (map_option uminus b))) xr cr)"

definition D_ij :: "real mat \<Rightarrow> fl mat \<Rightarrow> fl mat" where
  "D_ij x c = map (\<lambda>xr. map (\<lambda>cr. sqdist xr cr) c) x"

definition fl_less :: "fl \<Rightarrow> fl \<Rightarrow> bool" where
  \<comment> \<open>the order \<open>argmin\<close> uses: a NaN is below every number\<close>
  "fl_less a b = (case a of None \<Rightarrow> b \<noteq> None | Some x \<Rightarrow> (case b of None \<Rightarrow> False | Some y \<Rightarrow> x < y))"

fun argmin_from :: "nat \<Rightarrow> fl \<Rightarrow> nat \<Rightarrow> fl list \<Rightarrow> nat" where
  "argmin_from best bv i [] = best"
| "argmin_from best bv i (y # ys) =
     (if fl_less y bv then argmin_from i y (Suc i) ys else argmin_from best bv (Suc i) ys)"

definition argmin_row :: "fl list \<Rightarrow> nat" where
  \<comment> \<open>index of the first minimal entry of a non-empty row\<close>
  "argmin_row r = argmin_from 0 (hd r) 1 (tl r)"

definition argmin_dim1 :: "fl mat \<Rightarrow> nat list" where
  "argmin_dim1 m = map argmin_row m"

definition bincount :: "nat list \<Rightarrow> nat list" where
  \<comment> \<open>\<open>torch.bincount(cl)\<close>: one bin per value from 0 to the largest label, none for
      an empty input\<close>
  "bincount cl = (if cl = [] then [] else map (\<lambda>k. length (filter (\<lambda>l. l = k) cl)) [0 ..< Suc (foldr max cl 0)])"

definition bincount_w :: "nat list \<Rightarrow> real list \<Rightarrow> real list" where
  \<comment> \<open>\<open>torch.bincount(cl, weights=w)\<close>, \<open>w\<close> as long as \<open>cl\<close>\<close>
  "bincount_w cl w = (if cl = [] then [] else
     map (\<lambda>k. sum_list (map snd (filter (\<lambda>p. fst p = k) (zip cl w)))) [0 ..< Suc (foldr max cl 0)])"

definition assign_col :: "fl mat \<Rightarrow> nat \<Rightarrow> fl list \<Rightarrow> error + fl mat" where
  \<comment> \<open>\<open>c[:, d] = v\<close>: \<open>v\<close> has one entry per row of \<open>c\<close>, or a single entry that is
      broadcast to every row; any other length is a shape error\<close>
  "assign_col c d v =
     (if length v = length c then Inr (map2 (\<lambda>row e. row[d := e]) c v)
      else if length v = 1 then Inr (map (\<lambda>row. row[d := hd v]) c)
      else Inl TorchError)"

fun update_dims :: "real mat \<Rightarrow> nat list \<Rightarrow> nat list \<Rightarrow> fl mat \<Rightarrow> error + fl mat" where
  \<comment> \<open>the loop \<open>for d in range(D)\<close> over the list of dimensions still to do\<close>
  "update_dims x cl [] c = Inr c"
| "update_dims x cl (d # ds) c =
     (case assign_col c d (map2 (\<lambda>s n. fl_div s (real n)) (bincount_w cl (map (\<lambda>r. r ! d) x)) (bincount cl)) of
        Inl e \<Rightarrow> Inl e
      | Inr c' \<Rightarrow> update_dims x cl ds c')"

definition update_centroids :: "real mat \<Rightarrow> nat list \<Rightarrow> fl mat \<Rightarrow> error + fl mat" where
  "update_centroids x cl c = update_dims x cl [0 ..< length (hd x)] c"

definition kmeans_iter :: "real mat \<Rightarrow> fl mat \<Rightarrow> error + (nat list \<times> real mat \<times> fl mat)" where
  \<comment> \<open>one pass of the loop body; \<open>argmin\<close> over a dimension of size 0 raises\<close>
  "kmeans_iter x c =
     (if c = [] then Inl TorchError
      else let Dm = D_ij x c;
               cl = argmin_dim1 Dm
           in case normalize Dm of
                Inl e \<Rightarrow> Inl e
              | Inr nm \<Rightarrow>
                  (let pim = map (map (\<lambda>e. 1 - e)) nm
                   in case update_centroids x cl c of
                        Inl e \<Rightarrow> Inl e
                      | Inr c' \<Rightarrow> Inr (cl, pim, c')))"

fun kmeans_loop :: "nat \<Rightarrow> real mat \<Rightarrow> fl mat \<Rightarrow> (nat list \<times> real mat) option
                     \<Rightarrow> error + (nat list \<times> real mat) option" where
  "kmeans_loop 0 x c r = Inr r"
| "kmeans_loop (Suc n) x c r =
     (case kmeans_iter x c of
        Inl e \<Rightarrow> Inl e
      | Inr (cl, pim, c') \<Rightarrow> kmeans_loop n x c' (Some (cl, pim)))"

definition KMeans :: "real mat \<Rightarrow> nat \<Rightarrow> nat \<Rightarrow> error + (nat list \<times> real mat)" where
  \<comment> \<open>the centroids start as the first \<open>K\<close> rows; with \<open>Niter = 0\<close> the names \<open>cl\<close> and
      \<open>pi\<close> are unbound at the \<open>return\<close>\<close>
  "KMeans x Kc Niter =
     (case kmeans_loop Niter x (map (map Some) (take Kc x)) None of
        Inl e \<Rightarrow> Inl e
      | Inr None \<Rightarrow> Inl NameError
      | Inr (Some r) \<Rightarrow> Inr r)"

section \<open>Tensors of 32-bit floats\<close>

text \<open>
  The tensors of \<open>compute_gamma\<close> and \<open>compute_loss\<close> hold 32-bit floats. An entry is a
  finite number, an infinity or NaN, and the operations follow IEEE 754 on the infinities
  and NaN. The result of an operation on finite numbers is brought into the range of the
  format: a result of magnitude \<open>2^128 - 2^103\<close> or more overflows to an infinity, a
  result of magnitude \<open>2^-150\<close> or less underflows to zero (the smallest positive float
  is \<open>2^-149\<close>, and rounding is to nearest, ties to even). The rounding of a result
  that lies between these bounds, and the sign of zero, are not modelled.
\<close>

datatype f32 = Fin real | PInf | NInf | NaN

definition f32_overflow :: real where
  "f32_overflow = (2 - 1 / 2 ^ 24) * 2 ^ 127"

definition flush32 :: "real \<Rightarrow> real" where
  \<comment> \<open>underflow to zero\<close>
  "flush32 x = (if \<bar>x\<bar> \<le> 1 / 2 ^ 150 then 0 else x)"

definition rnd32 :: "real \<Rightarrow> f32" where
  "rnd32 x = (if f32_overflow \<le> x then PInf
              else if x \<le> - f32_overflow then NInf
              else Fin (flush32 x))"

fun f32_add :: "f32 \<Rightarrow> f32 \<Rightarrow> f32" where
  "f32_add (Fin a) (Fin b) = rnd32 (a + b)"
| "f32_add NaN v = NaN"
| "f32_add v NaN = NaN"
| "f32_add PInf NInf = NaN"
| "f32_add NInf PInf = NaN"
| "f32_add PInf v = PInf"
| "f32_add v PInf = PInf"
| "f32_add NInf v = NInf"
| "f32_add v NInf = NInf"

definition f32_sign :: "bool \<Rightarrow> f32" where
  \<comment> \<open>the infinity of a given sign\<close>
  "f32_sign positive = (if positive then PInf else NInf)"

fun f32_mul :: "f32 \<Rightarrow> f32 \<Rightarrow> f32" where
  "f32_mul (Fin a) (Fin b) = rnd32 (a * b)"
| "f32_mul NaN v = NaN"
| "f32_mul v NaN = NaN"
| "f32_mul (Fin a) PInf = (if a = 0 then NaN else f32_sign (0 < a))"
| "f32_mul (Fin a) NInf = (if a = 0 then NaN else f32_sign (a < 0))"
| "f32_mul PInf (Fin b) = (if b = 0 then NaN else f32_sign (0 < b))"
| "f32_mul NInf (Fin b) = (if b = 0 then NaN else f32_sign (b < 0))"
| "f32_mul PInf PInf = PInf"
| "f32_mul NInf NInf = PInf"
| "f32_mul PInf NInf = NInf"
| "f32_mul NInf PInf = NInf"

fun f32_div :: "f32 \<Rightarrow> f32 \<Rightarrow> f32" where
  "f32_div (Fin a) (Fin b) =
     (if b = 0 then (if a = 0 then NaN else f32_sign (0 < a)) else rnd32 (a / b))"
| "f32_div NaN v = NaN"
| "f32_div v NaN = NaN"
| "f32_div (Fin a) PInf = Fin 0"
| "f32_div (Fin a) NInf = Fin 0"
| "f32_div PInf (Fin b) = f32_sign (0 \<le> b)"
| "f32_div NInf (Fin b) = f32_sign (b < 0)"
| "f32_div PInf v = NaN"
| "f32_div NInf v = NaN"

fun f32_log :: "f32 \<Rightarrow> f32" where
  "f32_log (Fin x) = (if 0 < x then rnd32 (ln x) else if x = 0 then NInf else NaN)"
| "f32_log PInf = PInf"
| "f32_log NInf = NaN"
| "f32_log NaN = NaN"

definition f32_sum :: "f32 list \<Rightarrow> f32" where
  \<comment> \<open>a sum reduction, the entries added in the order of their index\<close>
  "f32_sum vs = foldl f32_add (Fin 0) vs"

section \<open>Community embedding\<close>

definition bcast :: "nat \<Rightarrow> 'a list \<Rightarrow> 'a list option" where
  \<comment> \<open>expand one tensor dimension to size \<open>n\<close>: unchanged at size \<open>n\<close>, repeated at
      size 1, a shape error otherwise\<close>
  "bcast n xs = (if length xs = n then Some xs
                 else if length xs = 1 then Some (replicate n (hd xs)) else None)"

definition bmap2 :: "('a \<Rightarrow> 'b \<Rightarrow> 'c) \<Rightarrow> 'a list \<Rightarrow> 'b list \<Rightarrow> 'c list option" where
  "bmap2 f a b =
     (let n = (if length a = 1 then length b else length a)
      in case bcast n a of None \<Rightarrow> None
         | Some a' \<Rightarrow> (case bcast n b of None \<Rightarrow> None | Some b' \<Rightarrow> Some (map2 f a' b')))"

definition bmat :: "('a \<Rightarrow> 'b \<Rightarrow> 'c) \<Rightarrow> 'a mat \<Rightarrow> 'b mat \<Rightarrow> error + 'c mat" where
  \<comment> \<open>an elementwise operation on two matrices under torch's broadcasting\<close>
  "bmat f A B =
     (case bmap2 (bmap2 f) A B of None \<Rightarrow> Inl TorchError
      | Some rows \<Rightarrow> if list_all (\<lambda>r. r \<noteq> None) rows then Inr (map the rows) else Inl TorchError)"

definition gamma_numerator :: "real mat \<Rightarrow> real mat \<Rightarrow> error + f32 mat" where
  \<comment> \<open>\<open>pi * probs\<close> on two tensors of finite floats\<close>
  "gamma_numerator pim probs = bmat (\<lambda>a b. rnd32 (a * b)) pim probs"

definition gamma_denominator :: "real mat \<Rightarrow> real mat \<Rightarrow> error + f32 list" where
  \<comment> \<open>\<open>torch.sum(gamma_numerator, dim=1, keepdim=True)\<close>, one sum per row\<close>
  "gamma_denominator pim probs =
     (case gamma_numerator pim probs of Inl e \<Rightarrow> Inl e | Inr num \<Rightarrow> Inr (map f32_sum num))"

definition compute_gamma :: "real mat \<Rightarrow> real mat \<Rightarrow> error + f32 mat" where
  "compute_gamma pim probs =
     (case gamma_numerator pim probs of Inl e \<Rightarrow> Inl e
      | Inr num \<Rightarrow>
         (case gamma_denominator pim probs of Inl e \<Rightarrow> Inl e
          | Inr den \<Rightarrow> Inr (map2 (\<lambda>row d. map (\<lambda>a. f32_div a d) row) num den)))"

definition colsum :: "f32 mat \<Rightarrow> f32 list" where
  \<comment> \<open>\<open>sum(dim=0, keepdim=True)\<close> of a matrix with at least one row\<close>
  "colsum m = map (\<lambda>k. f32_sum (map (\<lambda>r. r ! k) m)) [0 ..< length (hd m)]"

text \<open>
  A tensor carries its entries and the flag \<open>requires_grad\<close>. \<open>Tensor.numpy()\<close> raises
  RuntimeError on a tensor that requires grad; scikit-learn reaches the same conversion
  when it validates the argument of \<open>predict_proba\<close>. The network of the notebook is an
  \<open>nn.Sequential\<close> of \<open>Linear\<close> layers: their parameters require grad, and so does its
  output, whatever function of the batch the layers and the dropout masks of the call
  compute.
\<close>

record tensor =
  vals :: "real mat"
  requires_grad :: bool

definition numpy :: "tensor \<Rightarrow> error + real mat" where
  "numpy t = (if requires_grad t then Inl RuntimeError else Inr (vals t))"

definition nn_sequential :: "(real mat \<Rightarrow> real mat) \<Rightarrow> real mat \<Rightarrow> tensor" where
  "nn_sequential forward X_batch = \<lparr> vals = forward X_batch, requires_grad = True \<rparr>"

text \<open>
  The Gaussian mixture is scikit-learn's: its state and its operations on numpy arrays are
  parameters. \<open>fit\<close> returns the estimator it has updated in place, or the error it
  raised. The posteriors that \<open>predict_proba\<close> returns are taken to be finite floats.
\<close>

record 'g mixture =
  predict_proba :: "'g \<Rightarrow> real mat \<Rightarrow> real mat"
  fit :: "'g \<Rightarrow> real mat \<Rightarrow> error + 'g"
  means :: "'g \<Rightarrow> real mat"
  covariances :: "'g \<Rightarrow> real mat"

definition compute_loss ::
  "'g mixture \<Rightarrow> (real mat \<Rightarrow> tensor) \<Rightarrow> 'g \<Rightarrow> real mat \<Rightarrow> real mat \<Rightarrow> real mat \<Rightarrow> real mat
     \<Rightarrow> error + (real mat \<times> real mat \<times> f32 \<times> 'g)" where
  \<comment> \<open>\<open>model\<close> is the callable that \<open>compute_loss\<close> applies to the batch; the result holds
      \<open>psi\<close>, \<open>Sigma\<close>, \<open>loss\<close> and the estimator \<open>gmm\<close> that \<open>fit\<close> mutated. The first
      conversion of \<open>X\<close> is the one inside \<open>gmm.predict_proba(X)\<close>, the second is
      \<open>X.numpy()\<close>.\<close>
  "compute_loss lib model gmm X_batch pim psi Sigma_in =
     (let X = model X_batch
      in case numpy X of Inl e \<Rightarrow> Inl e
         | Inr Xa \<Rightarrow>
            (let probs = map (map (max eps)) (predict_proba lib gmm Xa)
             in case compute_gamma pim probs of Inl e \<Rightarrow> Inl e
                | Inr gamma \<Rightarrow>
                   (let Nk = colsum gamma;
                        pi' = map (\<lambda>n. f32_div n (Fin (real (length X_batch)))) Nk
                    in case numpy X of Inl e \<Rightarrow> Inl e
                       | Inr Xb \<Rightarrow>
                          (case fit lib gmm Xb of Inl e \<Rightarrow> Inl e
                           | Inr gmm' \<Rightarrow>
                              (let psi' = means lib gmm';
                                   Sigma' = covariances lib gmm'
                               in case bmat f32_mul [pi'] (map (map Fin) probs) of Inl e \<Rightarrow> Inl e
                                  | Inr lp \<Rightarrow>
                                     Inr (psi', Sigma',
                                          f32_mul (Fin (- (beta / real K)))
                                                  (f32_sum (map (\<lambda>row. f32_sum (map f32_log row)) lp)),
                                          gmm'))))))"


section \<open>Training loop: the reported metric\<close>

definition py_slice_from :: "int \<Rightarrow> 'a list \<Rightarrow> 'a list" where
  \<comment> \<open>Python's \<open>xs[start:]\<close>: a negative start counts from the end, and a start outside
      the list is clamped\<close>
  "py_slice_from start xs =
     (let n = int (length xs);
          s = (if start < 0 then max 0 (start + n) else min start n)
      in drop (nat s) xs)"

definition np_mean :: "fl list \<Rightarrow> fl" where
  \<comment> \<open>the mean of an empty list is NaN\<close>
  "np_mean xs = fl_div_real (fl_sum xs) (real (length xs))"

definition epoch_metric :: "nat \<Rightarrow> fl list \<Rightarrow> fl" where
  \<comment> \<open>\<open>np.mean(train_loss[-len(dataset) // batch_size :])\<close> for a dataset of \<open>n\<close> rows:
      the unary minus binds tighter than \<open>//\<close>, which rounds towards minus infinity\<close>
  "epoch_metric n train_loss = np_mean (py_slice_from ((- int n) div int batch_size) train_loss)"

section \<open>Loading the embedding file\<close>

definition split_once :: "string \<Rightarrow> string list" where
  \<comment> \<open>\<open>s.split(" ", 1)\<close>\<close>
  "split_once s =
     (if CHR '' '' \<in> set s
      then [takeWhile (\<lambda>c. c \<noteq> CHR '' '') s, tl (dropWhile (\<lambda>c. c \<noteq> CHR '' '') s)]
      else [s])"

fun split_all :: "string \<Rightarrow> string list" where
  \<comment> \<open>\<open>s.split(" ")\<close>\<close>
  "split_all [] = [[]]"
| "split_all (c # cs) =
     (if c = CHR '' '' then [] # split_all cs
      else (case split_all cs of [] \<Rightarrow> [[c]] | w # ws \<Rightarrow> (c # w) # ws))"

definition dict_set :: "'k \<Rightarrow> 'v \<Rightarrow> ('k \<times> 'v) list \<Rightarrow> ('k \<times> 'v) list" where
  \<comment> \<open>a dict in insertion order: a new key goes last, a known key keeps its place and
      takes the new value\<close>
  "dict_set k v d =
     (if k \<in> set (map fst d) then map (\<lambda>p. if fst p = k then (k, v) else p) d
      else d @ [(k, v)])"

fun dict_build :: "(string \<times> string) list \<Rightarrow> string list list \<Rightarrow> error + (string \<times> string) list" where
  \<comment> \<open>\<open>dict(...)\<close> over a sequence of items: an item that is not a pair raises ValueError\<close>
  "dict_build d [] = Inr d"
| "dict_build d (p # ps) =
     (case p of [k, v] \<Rightarrow> dict_build (dict_set k v d) ps | _ \<Rightarrow> Inl ValueError)"

definition vectorize :: "(string \<Rightarrow> real option) \<Rightarrow> string \<Rightarrow> error + real list" where
  \<comment> \<open>\<open>pfloat\<close> is the string-to-float conversion of \<open>astype(float)\<close>\<close>
  "vectorize pfloat row =
     (let fs = map pfloat (split_all row)
      in if None \<in> set fs then Inl ValueError else Inr (map the fs))"

fun convert_items :: "(string \<Rightarrow> int option) \<Rightarrow> (string \<Rightarrow> real option) \<Rightarrow> (int \<times> real list) list
      \<Rightarrow> (string \<times> string) list \<Rightarrow> error + (int \<times> real list) list" where
  \<comment> \<open>the comprehension \<open>{int(num): vectorize(v) for num, v in d.items()}\<close>; \<open>pint\<close> is
      the string-to-integer conversion \<open>int\<close>\<close>
  "convert_items pint pfloat acc [] = Inr acc"
| "convert_items pint pfloat acc (p # ps) =
     (case pint (fst p) of None \<Rightarrow> Inl ValueError
      | Some n \<Rightarrow> (case vectorize pfloat (snd p) of Inl e \<Rightarrow> Inl e
                   | Inr vec \<Rightarrow> convert_items pint pfloat (dict_set n vec acc) ps))"

definition skipgram2dict ::
  "(string \<Rightarrow> int option) \<Rightarrow> (string \<Rightarrow> real option) \<Rightarrow> string list \<Rightarrow> error + (int \<times> real list) list" where
  "skipgram2dict pint pfloat skipgram =
     (case dict_build [] (map split_once skipgram) of Inl e \<Rightarrow> Inl e
      | Inr d \<Rightarrow> (case convert_items pint pfloat [] d of Inl e \<Rightarrow> Inl e
                  | Inr d' \<Rightarrow> Inr (sort_key fst d')))"

definition float_tensor :: "real list list \<Rightarrow> error + real mat" where
  \<comment> \<open>\<open>torch.FloatTensor\<close> of a list of rows: rows of different lengths raise ValueError\<close>
  "float_tensor rows =
     (if list_all (\<lambda>r. length r = length (hd rows)) rows then Inr rows else Inl ValueError)"

definition load_embeddings ::
  "(string \<Rightarrow> int option) \<Rightarrow> (string \<Rightarrow> real option) \<Rightarrow> string list \<Rightarrow> error + real mat" where
  \<comment> \<open>the cell that reads the file: \<open>lines\<close> is the result of \<open>readlines()\<close>, whose
      first entry \<open>pop(0)\<close> drops\<close>
  "load_embeddings pint pfloat lines =
     (if lines = [] then Inl IndexError
      else case skipgram2dict pint pfloat (tl lines) of Inl e \<Rightarrow> Inl e
           | Inr dataset \<Rightarrow> float_tensor (map snd dataset))"

section \<open>Concrete inputs\<close>

definition degenerate_batch :: "real mat" where
  \<comment> \<open>a batch of nine rows of dimension \<open>D\<close>: seven rows of zeros, a row of ones and a
      row of minus ones\<close>
  "degenerate_batch = replicate 7 (replicate D 0) @ [replicate D 1, replicate D (- 1)]"

definition degenerate_pi :: "real mat" where
  "degenerate_pi = replicate 7 (replicate 7 1) @ [replicate 7 0, replicate 7 0]"


definition constant_batch :: "real mat" where
  \<comment> \<open>a batch of eight copies of one point of dimension \<open>D\<close>\<close>
  "constant_batch = replicate 8 (replicate D 1)"





section \<open>Decimal literals\<close>

text \<open>
  The conversions \<open>int\<close> and \<open>float\<close> are parameters of the loader. The two functions
  below are their restriction to plain decimal literals with an optional sign and
  surrounding white space; they serve to run the loader on concrete files. The other
  spellings Python accepts (exponents, \<open>inf\<close>, \<open>nan\<close>, underscores) are outside this
  fragment.
\<close>

definition is_space :: "char \<Rightarrow> bool" where
  "is_space c = (c = CHR '' '' \<or> c = CHR 0x0A \<or> c = CHR 0x09 \<or> c = CHR 0x0D)"

definition strip :: "string \<Rightarrow> string" where
  "strip s = rev (dropWhile is_space (rev (dropWhile is_space s)))"

definition digit :: "char \<Rightarrow> nat option" where
  "digit c = map_of (zip ''0123456789'' [0, 1, 2, 3, 4, 5, 6, 7, 8, 9]) c"

fun dec_nat_acc :: "nat \<Rightarrow> string \<Rightarrow> nat option" where
  "dec_nat_acc a [] = Some a"
| "dec_nat_acc a (c # cs) = (case digit c of None \<Rightarrow> None | Some v \<Rightarrow> dec_nat_acc (10 * a + v) cs)"

definition dec_nat :: "string \<Rightarrow> nat option" where
  "dec_nat s = (if s = [] then None else dec_nat_acc 0 s)"

definition dec_int :: "string \<Rightarrow> int option" where
  "dec_int s =
     (case strip s of [] \<Rightarrow> None
      | c # cs \<Rightarrow> if c = CHR ''-'' then map_option (\<lambda>n. - int n) (dec_nat cs)
                 else if c = CHR ''+'' then map_option int (dec_nat cs)
                 else map_option int (dec_nat (c # cs)))"

definition dec_ufloat :: "string \<Rightarrow> real option" where
  "dec_ufloat u =
     (let ip = takeWhile (\<lambda>c. c \<noteq> CHR ''.'') u;
          fp = drop 1 (dropWhile (\<lambda>c. c \<noteq> CHR ''.'') u)
      in if ip = [] \<and> fp = [] then None
         else case dec_nat_acc 0 ip of None \<Rightarrow> None
              | Some a \<Rightarrow> (case dec_nat_acc 0 fp of None \<Rightarrow> None
                           | Some b \<Rightarrow> Some (real a + real b / 10 ^ length fp)))"

definition dec_float :: "string \<Rightarrow> real option" where
  "dec_float s =
     (case strip s of [] \<Rightarrow> None
      | c # cs \<Rightarrow> if c = CHR ''-'' then map_option uminus (dec_ufloat cs)
                 else if c = CHR ''+'' then dec_ufloat cs
                 else dec_ufloat (c # cs))"

definition two_field_file :: "string list" where
  \<comment> \<open>the lines of an embedding file: a header and two rows of one coordinate each\<close>
  "two_field_file = [''2 1'' @ [CHR 0x0A], ''1 2.5'' @ [CHR 0x0A], ''0 1.5'' @ [CHR 0x0A]]"

definition duplicate_id_file :: "string list" where
  \<comment> \<open>a header and three rows; the first two rows carry the same node id and different
      numbers of coordinates\<close>
  "duplicate_id_file = [''2 2'' @ [CHR 0x0A], ''1 9'' @ [CHR 0x0A],
                        ''1 2.5 3.5'' @ [CHR 0x0A], ''0 1.5 4.5'' @ [CHR 0x0A]]"

section \<open>Facts about the tensor operations\<close>

lemma fl_sum_Some: "fl_sum (map Some xs) = Some (sum_list xs)"
  by (induction xs) (simp_all add: fl_sum_def fl_add_def)







section \<open>K-Means on a batch whose first rows coincide\<close>

lemma sqdist_replicate:
  "sqdist (replicate n a) (replicate n (Some b)) = Some (real n * ((a - b) * (a - b)))"
proof -
  have e: "fl_mul (fl_add (Some a) (map_option uminus (Some b)))
                  (fl_add (Some a) (map_option uminus (Some b))) = Some ((a - b) * (a - b))"
    by (simp add: fl_mul_def fl_add_def)
  have m: "map2 (\<lambda>a b. fl_mul (fl_add (Some a) (map_option uminus b))
                             (fl_add (Some a) (map_option uminus b)))
          (replicate n a) (replicate n (Some b))
        = map Some (replicate n ((a - b) * (a - b)))"
    by (induction n) (simp_all only: replicate.simps zip_Cons_Cons zip_Nil list.map e prod.case)
  show ?thesis
    unfolding sqdist_def m fl_sum_Some by (simp add: sum_list_replicate)
qed

lemma argmin_from_const:
  "\<not> fl_less v bv \<Longrightarrow> argmin_from best bv i (replicate m v) = best"
  by (induction m arbitrary: i) simp_all

lemma argmin_row_const: "argmin_row (replicate (Suc m) (Some a)) = 0"
  by (simp add: argmin_row_def argmin_from_const fl_less_def)

lemma kmeans_loop_error:
  "kmeans_iter x c = Inl e \<Longrightarrow> kmeans_loop (Suc n) x c r = Inl e"
  by simp


lemma D_ij_degenerate:
  "D_ij degenerate_batch (replicate 7 (replicate D (Some 0)))
     = replicate 7 (replicate 7 (Some 0)) @ [replicate 7 (Some (real D)), replicate 7 (Some (real D))]"
  by (simp add: D_ij_def degenerate_batch_def sqdist_replicate)

lemma normalize_degenerate:
  "normalize (replicate 7 (replicate 7 (Some 0)) @ [replicate 7 (Some (real D)), replicate 7 (Some (real D))])
     = Inr (replicate 7 (replicate 7 0) @ [replicate 7 1, replicate 7 1])"
  by (simp add: normalize_def finite_mat_def finite_row_def tmin_def tmax_def numeral_eq_Suc D_def)


lemma replicate_update_same: "(replicate n x)[i := x] = replicate n x"
  by (induction n arbitrary: i) (auto split: nat.split)

lemma bincount_all_zero: "bincount (replicate (Suc m) 0) = [Suc m]"
proof -
  have "foldr max (replicate k 0) (0::nat) = 0" for k by (induction k) simp_all
  then show ?thesis by (simp add: bincount_def)
qed

lemma bincount_w_all_zero:
  assumes "length w = Suc m"
  shows "bincount_w (replicate (Suc m) 0) w = [sum_list w]"
proof -
  let ?z = "replicate (Suc m) (0::nat)"
  have a: "filter (\<lambda>p. fst p = 0) (zip ?z w) = zip ?z w"
    by (auto simp: filter_id_conv dest: set_zip_leftD)
  have b: "map snd (zip ?z w) = w"
    using assms by (simp add: map_snd_zip del: replicate.simps)
  have c: "foldr max ?z 0 = 0"
  proof -
    have "foldr max (replicate k 0) (0::nat) = 0" for k by (induction k) simp_all
    then show ?thesis .
  qed
  have c': "(max (0::nat) ^^ k) 0 = 0" for k by (induction k) simp_all
  have d: "?z \<noteq> []" by simp
  show ?thesis
    unfolding bincount_w_def using d by (simp add: a b c c' del: replicate.simps)
qed

lemma column_degenerate:
  "d < D \<Longrightarrow> map (\<lambda>r. r ! d) degenerate_batch = replicate 7 0 @ [1, - 1]"
  by (simp add: degenerate_batch_def)

lemma centroid_column_degenerate:
  assumes "d < D"
  shows "map2 (\<lambda>s n. fl_div s (real n))
           (bincount_w (replicate 9 0) (map (\<lambda>r. r ! d) degenerate_batch))
           (bincount (replicate 9 0)) = [Some 0]"
proof -
  have nine: "(9::nat) = Suc 8" by simp
  have "bincount_w (replicate 9 0) (replicate 7 0 @ [1, - 1]) = [0]"
    unfolding nine by (subst bincount_w_all_zero [where m = 8]) (simp_all add: sum_list_replicate)
  moreover have "bincount (replicate 9 0) = [9]"
    unfolding nine by (simp only: bincount_all_zero)
  ultimately show ?thesis
    by (simp add: column_degenerate [OF assms] fl_div_def)
qed

lemma update_dims_degenerate:
  "\<forall>d\<in>set ds. d < D \<Longrightarrow>
   update_dims degenerate_batch (replicate 9 0) ds (replicate 7 (replicate D (Some 0)))
     = Inr (replicate 7 (replicate D (Some 0)))"
  by (induction ds)
     (simp_all add: centroid_column_degenerate assign_col_def replicate_update_same)


lemma argmin_dim1_degenerate:
  "argmin_dim1 (replicate 7 (replicate 7 (Some 0))
     @ [replicate 7 (Some (real D)), replicate 7 (Some (real D))]) = replicate 9 0"
proof -
  have seven: "(7::nat) = Suc 6" by simp
  have a: "argmin_row (replicate 7 (Some a)) = 0" for a :: real
    unfolding seven by (rule argmin_row_const)
  show ?thesis
    unfolding argmin_dim1_def map_append map_replicate list.map a
    by (simp add: numeral_eq_Suc)
qed

lemma update_centroids_degenerate:
  "update_centroids degenerate_batch (replicate 9 0) (replicate 7 (replicate D (Some 0)))
     = Inr (replicate 7 (replicate D (Some 0)))"
proof -
  have hd: "length (hd degenerate_batch) = D"
    by (simp add: degenerate_batch_def numeral_eq_Suc)
  show ?thesis
    unfolding update_centroids_def hd by (rule update_dims_degenerate) simp
qed


lemma kmeans_iter_degenerate:
  "kmeans_iter degenerate_batch (replicate 7 (replicate D (Some 0)))
     = Inr (replicate 9 0, degenerate_pi, replicate 7 (replicate D (Some 0)))"
proof -
  have ne: "replicate 7 (replicate D (Some (0::real))) \<noteq> []" by simp
  have pim: "map (map (\<lambda>e. 1 - e)) (replicate 7 (replicate 7 0) @ [replicate 7 1, replicate 7 1])
               = degenerate_pi"
    by (simp add: degenerate_pi_def)
  show ?thesis
    unfolding kmeans_iter_def Let_def D_ij_degenerate normalize_degenerate
      argmin_dim1_degenerate update_centroids_degenerate
    using ne pim by (simp only: if_False sum.case)
qed



section \<open>Centroid recomputation\<close>

lemma foldr_max_ge: "l \<in> set cl \<Longrightarrow> l \<le> foldr max cl (0::nat)"
  by (induction cl) auto

lemma foldr_max_le: "\<forall>l\<in>set cl. l \<le> b \<Longrightarrow> foldr max cl (0::nat) \<le> b"
  by (induction cl) auto

lemma length_bincount: "cl \<noteq> [] \<Longrightarrow> length (bincount cl) = Suc (foldr max cl 0)"
  by (simp add: bincount_def)

lemma length_bincount_w: "length (bincount_w cl w) = length (bincount cl)"
  by (simp add: bincount_def bincount_w_def)

lemma bincount_empty_bin:
  "k < length (bincount cl) \<Longrightarrow> k \<notin> set cl \<Longrightarrow> bincount cl ! k = 0"
proof -
  assume k: "k < length (bincount cl)" and "k \<notin> set cl"
  then have "filter (\<lambda>l. l = k) cl = []" by (auto simp: filter_empty_conv)
  with k show ?thesis
    by (simp add: bincount_def split: if_splits del: upt_Suc)
qed

lemma bincount_w_empty_bin:
  "k < length (bincount cl) \<Longrightarrow> k \<notin> set cl \<Longrightarrow> bincount_w cl w ! k = 0"
proof -
  assume k: "k < length (bincount cl)" and "k \<notin> set cl"
  then have "filter (\<lambda>p. fst p = k) (zip cl w) = []"
    by (auto simp: filter_empty_conv dest: set_zip_leftD)
  with k show ?thesis
    by (simp add: bincount_def bincount_w_def split: if_splits del: upt_Suc)
qed

lemma update_dims_full:
  assumes "length (bincount cl) = length c"
  shows "\<exists>c'. update_dims x cl ds c = Inr c' \<and> length c' = length c
            \<and> (\<forall>j<length c. length (c' ! j) = length (c ! j)
                  \<and> (\<forall>d. c' ! j ! d =
                        (if d \<in> set ds \<and> d < length (c ! j)
                         then fl_div (bincount_w cl (map (\<lambda>r. r ! d) x) ! j) (real (bincount cl ! j))
                         else c ! j ! d)))"
  using assms
proof (induction ds arbitrary: c)
  case Nil
  then show ?case by simp
next
  case (Cons d ds)
  let ?v = "map2 (\<lambda>s n. fl_div s (real n)) (bincount_w cl (map (\<lambda>r. r ! d) x)) (bincount cl)"
  let ?c1 = "map2 (\<lambda>row e. row[d := e]) c ?v"
  have lv: "length ?v = length c" using Cons.prems by (simp add: length_bincount_w)
  have a: "assign_col c d ?v = Inr ?c1" using lv by (simp add: assign_col_def)
  have l1: "length ?c1 = length c" using lv by simp
  have "length (bincount cl) = length ?c1" using Cons.prems l1 by simp
  from Cons.IH [OF this] obtain c' where
    r: "update_dims x cl ds ?c1 = Inr c'" and lc: "length c' = length ?c1"
    and inv: "\<forall>j<length ?c1. length (c' ! j) = length (?c1 ! j)
                \<and> (\<forall>e. c' ! j ! e =
                      (if e \<in> set ds \<and> e < length (?c1 ! j)
                       then fl_div (bincount_w cl (map (\<lambda>r. r ! e) x) ! j) (real (bincount cl ! j))
                       else ?c1 ! j ! e))"
    by blast
  have row1: "?c1 ! j = (c ! j)[d := ?v ! j]" if "j < length c" for j
    using that lv by simp
  have vj: "?v ! j = fl_div (bincount_w cl (map (\<lambda>r. r ! d) x) ! j) (real (bincount cl ! j))"
    if "j < length c" for j
    using that Cons.prems by (simp add: length_bincount_w)
  have "update_dims x cl (d # ds) c = Inr c'" using a r by simp
  moreover have "length c' = length c" using lc l1 by simp
  moreover have "\<forall>j<length c. length (c' ! j) = length (c ! j)
                  \<and> (\<forall>e. c' ! j ! e =
                        (if e \<in> set (d # ds) \<and> e < length (c ! j)
                         then fl_div (bincount_w cl (map (\<lambda>r. r ! e) x) ! j) (real (bincount cl ! j))
                         else c ! j ! e))"
  proof (intro allI impI)
    fix j assume j: "j < length c"
    then have j1: "j < length ?c1" using l1 by simp
    from inv j1 have len: "length (c' ! j) = length (?c1 ! j)"
      and ent: "\<And>e. c' ! j ! e =
                      (if e \<in> set ds \<and> e < length (?c1 ! j)
                       then fl_div (bincount_w cl (map (\<lambda>r. r ! e) x) ! j) (real (bincount cl ! j))
                       else ?c1 ! j ! e)"
      by blast+
    have len1: "length (?c1 ! j) = length (c ! j)" using row1 [OF j] by simp
    show "length (c' ! j) = length (c ! j)
            \<and> (\<forall>e. c' ! j ! e =
                  (if e \<in> set (d # ds) \<and> e < length (c ! j)
                   then fl_div (bincount_w cl (map (\<lambda>r. r ! e) x) ! j) (real (bincount cl ! j))
                   else c ! j ! e))"
    proof (intro conjI allI)
      show "length (c' ! j) = length (c ! j)" using len len1 by simp
    next
      fix e
      show "c' ! j ! e =
              (if e \<in> set (d # ds) \<and> e < length (c ! j)
               then fl_div (bincount_w cl (map (\<lambda>r. r ! e) x) ! j) (real (bincount cl ! j))
               else c ! j ! e)"
      proof (cases "d < length (c ! j)")
        case True
        then show ?thesis
          using ent [of e] len1 row1 [OF j] vj [OF j] by (auto simp: nth_list_update)
      next
        case False
        then have "?c1 ! j = c ! j" using row1 [OF j] by (simp add: list_update_beyond)
        then show ?thesis using ent [of e] len1 False by auto
      qed
    qed
  qed
  ultimately show ?case by blast
qed

section \<open>The soft affinity lies between 0 and 1\<close>









section \<open>Facts about the loader\<close>

lemma vectorize_error: "vectorize pfloat row = Inl e \<Longrightarrow> e = ValueError"
  by (auto simp: vectorize_def Let_def split: if_splits)

lemma dict_build_not_pair:
  "\<exists>p\<in>set ps. length p \<noteq> 2 \<Longrightarrow> dict_build d ps = Inl ValueError"
proof (induction ps arbitrary: d)
  case Nil
  then show ?case by simp
next
  case (Cons p ps)
  show ?case
  proof (cases "length p = 2")
    case True
    then obtain k v where p: "p = [k, v]"
      by (cases p; cases "tl p") (auto simp: length_Suc_conv)
    from Cons.prems True have "\<exists>q\<in>set ps. length q \<noteq> 2" by auto
    from Cons.IH [OF this] show ?thesis by (simp add: p)
  next
    case False
    then show ?thesis by (cases p; cases "tl p"; cases "tl (tl p)") auto
  qed
qed

lemma dict_set_keys: "fst ` set (dict_set k v d) = insert k (fst ` set d)"
proof (cases "k \<in> set (map fst d)")
  case True
  have "map fst (map (\<lambda>p. if fst p = k then (k, v) else p) d) = map fst d"
    by (induction d) auto
  then have "set (map fst (dict_set k v d)) = set (map fst d)"
    using True by (simp only: dict_set_def if_True)
  then show ?thesis using True by auto
next
  case False
  then show ?thesis by (simp add: dict_set_def)
qed

lemma dict_build_keys:
  "\<forall>p\<in>set ps. length p = 2 \<Longrightarrow>
   \<exists>d'. dict_build d ps = Inr d' \<and> fst ` set d' = fst ` set d \<union> hd ` set ps"
proof (induction ps arbitrary: d)
  case Nil
  then show ?case by simp
next
  case (Cons p ps)
  from Cons.prems obtain k v where p: "p = [k, v]"
    by (cases p; cases "tl p") (auto simp: length_Suc_conv)
  from Cons.prems have "\<forall>q\<in>set ps. length q = 2" by simp
  from Cons.IH [OF this, of "dict_set k v d"] obtain d' where
    "dict_build (dict_set k v d) ps = Inr d'"
    "fst ` set d' = fst ` set (dict_set k v d) \<union> hd ` set ps" by blast
  then show ?case by (simp add: p dict_set_keys)
qed

lemma convert_items_bad_key:
  "\<exists>p\<in>set d. pint (fst p) = None \<Longrightarrow> convert_items pint pfloat acc d = Inl ValueError"
proof (induction d arbitrary: acc)
  case Nil
  then show ?case by simp
next
  case (Cons p ps)
  show ?case
  proof (cases "pint (fst p)")
    case None
    then show ?thesis by simp
  next
    case (Some n)
    with Cons.prems have rest: "\<exists>q\<in>set ps. pint (fst q) = None" by auto
    show ?thesis
    proof (cases "vectorize pfloat (snd p)")
      case (Inl e)
      then show ?thesis using Some vectorize_error [OF Inl] by simp
    next
      case (Inr vec)
      then show ?thesis using Some Cons.IH [OF rest] by simp
    qed
  qed
qed

lemma split_all_first_field:
  "CHR '' '' \<in> set r \<Longrightarrow>
   split_all r = takeWhile (\<lambda>c. c \<noteq> CHR '' '') r
                   # split_all (tl (dropWhile (\<lambda>c. c \<noteq> CHR '' '') r))"
proof (induction r)
  case Nil
  then show ?case by simp
next
  case (Cons c cs)
  show ?case
  proof (cases "c = CHR '' ''")
    case True
    then show ?thesis by simp
  next
    case False
    with Cons.prems have "CHR '' '' \<in> set cs" by simp
    from Cons.IH [OF this] False show ?thesis by simp
  qed
qed

lemma vectorize_length:
  "vectorize pfloat v = Inr vec \<Longrightarrow> length vec = length (split_all v)"
  by (auto simp: vectorize_def Let_def split: if_splits)

lemma dict_set_new: "k \<notin> set (map fst d) \<Longrightarrow> dict_set k v d = d @ [(k, v)]"
  by (simp add: dict_set_def)

lemma dict_build_distinct:
  assumes "\<forall>r\<in>set rows. CHR '' '' \<in> set r"
    and "distinct (map (\<lambda>r. takeWhile (\<lambda>c. c \<noteq> CHR '' '') r) rows)"
    and "\<forall>r\<in>set rows. takeWhile (\<lambda>c. c \<noteq> CHR '' '') r \<notin> set (map fst d)"
  shows "dict_build d (map split_once rows)
           = Inr (d @ map (\<lambda>r. (takeWhile (\<lambda>c. c \<noteq> CHR '' '') r,
                                 tl (dropWhile (\<lambda>c. c \<noteq> CHR '' '') r))) rows)"
  using assms
proof (induction rows arbitrary: d)
  case Nil
  then show ?case by simp
next
  case (Cons r rows)
  let ?k = "takeWhile (\<lambda>c. c \<noteq> CHR '' '') r"
  let ?v = "tl (dropWhile (\<lambda>c. c \<noteq> CHR '' '') r)"
  have sp: "split_once r = [?k, ?v]" using Cons.prems(1) by (simp add: split_once_def)
  have new: "dict_set ?k ?v d = d @ [(?k, ?v)]"
    using Cons.prems(3) by (intro dict_set_new) simp
  have a: "\<forall>r\<in>set rows. CHR '' '' \<in> set r" using Cons.prems(1) by simp
  have b: "distinct (map (\<lambda>r. takeWhile (\<lambda>c. c \<noteq> CHR '' '') r) rows)"
    using Cons.prems(2) by simp
  have c: "\<forall>r'\<in>set rows. takeWhile (\<lambda>c. c \<noteq> CHR '' '') r' \<notin> set (map fst (d @ [(?k, ?v)]))"
  proof
    fix r' assume r': "r' \<in> set rows"
    then have m: "takeWhile (\<lambda>c. c \<noteq> CHR '' '') r' \<in> takeWhile (\<lambda>c. c \<noteq> CHR '' '') ` set rows"
      by (rule imageI)
    have "?k \<notin> takeWhile (\<lambda>c. c \<noteq> CHR '' '') ` set rows" using Cons.prems(2) by simp
    with m have "takeWhile (\<lambda>c. c \<noteq> CHR '' '') r' \<noteq> ?k" by metis
    moreover have "takeWhile (\<lambda>c. c \<noteq> CHR '' '') r' \<notin> set (map fst d)"
      using Cons.prems(3) r' by simp
    ultimately show "takeWhile (\<lambda>c. c \<noteq> CHR '' '') r' \<notin> set (map fst (d @ [(?k, ?v)]))"
      by simp
  qed
  from Cons.IH [OF a b c] show ?case by (simp add: sp new)
qed

lemma convert_items_distinct:
  assumes "distinct (map (\<lambda>p. pint (fst p)) d)"
    and "\<forall>p\<in>set d. pint (fst p) \<notin> set (map (\<lambda>q. Some (fst q)) acc)"
  shows "convert_items pint pfloat acc d = Inl ValueError
         \<or> (\<exists>d'. convert_items pint pfloat acc d = Inr (acc @ d')
                \<and> map (\<lambda>q. length (snd q)) d' = map (\<lambda>p. length (split_all (snd p))) d)"
  using assms
proof (induction d arbitrary: acc)
  case Nil
  then show ?case by simp
next
  case (Cons p ps)
  show ?case
  proof (cases "pint (fst p)")
    case None
    then show ?thesis by simp
  next
    case (Some n)
    show ?thesis
    proof (cases "vectorize pfloat (snd p)")
      case (Inl e)
      then show ?thesis using Some vectorize_error [OF Inl] by simp
    next
      case (Inr vec)
      have "n \<notin> set (map fst acc)" using Cons.prems(2) Some by force
      then have new: "dict_set n vec acc = acc @ [(n, vec)]" by (rule dict_set_new)
      have a: "distinct (map (\<lambda>p. pint (fst p)) ps)" using Cons.prems(1) by simp
      have b: "\<forall>q\<in>set ps. pint (fst q) \<notin> set (map (\<lambda>q. Some (fst q)) (acc @ [(n, vec)]))"
      proof
        fix q assume q: "q \<in> set ps"
        then have m: "pint (fst q) \<in> (\<lambda>p. pint (fst p)) ` set ps" by (rule imageI)
        have "pint (fst p) \<notin> set (map (\<lambda>p. pint (fst p)) ps)" using Cons.prems(1) by simp
        then have "Some n \<notin> (\<lambda>p. pint (fst p)) ` set ps" using Some by simp
        with m have "pint (fst q) \<noteq> Some n" by metis
        moreover have "pint (fst q) \<notin> set (map (\<lambda>q. Some (fst q)) acc)"
          using Cons.prems(2) q by simp
        ultimately show "pint (fst q) \<notin> set (map (\<lambda>q. Some (fst q)) (acc @ [(n, vec)]))"
          by auto
      qed
      from Cons.IH [OF a b]
      show ?thesis
      proof
        assume "convert_items pint pfloat (acc @ [(n, vec)]) ps = Inl ValueError"
        then show ?thesis using Some Inr new by simp
      next
        assume "\<exists>d'. convert_items pint pfloat (acc @ [(n, vec)]) ps = Inr ((acc @ [(n, vec)]) @ d')
                  \<and> map (\<lambda>q. length (snd q)) d' = map (\<lambda>p. length (split_all (snd p))) ps"
        then obtain d' where r: "convert_items pint pfloat (acc @ [(n, vec)]) ps = Inr ((acc @ [(n, vec)]) @ d')"
          and l: "map (\<lambda>q. length (snd q)) d' = map (\<lambda>p. length (split_all (snd p))) ps" by blast
        have "convert_items pint pfloat acc (p # ps) = Inr (acc @ ((n, vec) # d'))"
          using Some Inr new r by simp
        moreover have "map (\<lambda>q. length (snd q)) ((n, vec) # d')
                         = map (\<lambda>p. length (split_all (snd p))) (p # ps)"
          using l vectorize_length [OF Inr] by simp
        ultimately show ?thesis by blast
      qed
    qed
  qed
qed

lemma float_tensor_ragged:
  "a \<in> set rows \<Longrightarrow> b \<in> set rows \<Longrightarrow> length a \<noteq> length b \<Longrightarrow> float_tensor rows = Inl ValueError"
proof -
  assume a: "a \<in> set rows" and b: "b \<in> set rows" and ne: "length a \<noteq> length b"
  have "length a \<noteq> length (hd rows) \<or> length b \<noteq> length (hd rows)" using ne by auto
  then have "\<exists>r\<in>set rows. length r \<noteq> length (hd rows)" using a b by blast
  then show ?thesis by (auto simp: float_tensor_def list_all_iff)
qed

section \<open>Facts about the 32-bit operations\<close>















section \<open>The steps of compute\_loss\<close>








subsection \<open>A step on a detached output, with the stand-in mixture\<close>




















section \<open>The reported training metric\<close>

text \<open>
  Claim C4. After each epoch the reported training metric is the mean of the recorded
  per-batch losses over the last \<open>ceil(dataset_size / batch_size)\<close> entries of
  \<open>train_loss\<close>, for a dataset that is not empty.
\<close>

theorem epoch_metric_last_batches:
  "0 < n \<Longrightarrow>
   epoch_metric n train_loss =
     np_mean (drop (length train_loss - nat \<lceil>real n / real batch_size\<rceil>) train_loss)"
proof -
  assume n: "0 < n"
  have c: "\<lceil>real n / real batch_size\<rceil> = - ((- int n) div int batch_size)"
    using ceiling_divide_eq_div [of "int n" "int batch_size"] by simp
  have neg: "(- int n) div int batch_size < 0"
    using n by (simp add: batch_size_def div_neg_pos_less0)
  have "py_slice_from ((- int n) div int batch_size) train_loss =
        drop (length train_loss - nat \<lceil>real n / real batch_size\<rceil>) train_loss"
    unfolding py_slice_from_def Let_def c using neg
    by (auto simp: max_def intro!: arg_cong2 [where f = drop])
  then show ?thesis by (simp add: epoch_metric_def)
qed

theorem epoch_metric_last_batches_witness:
  "0 < (2708::nat) \<and>
   epoch_metric 2708 (map Some [1, 2, 3, 4, 5, 6, 7, 8, 9, 10, 11, 12]) = Some (15 / 2)"
  using epoch_metric_last_batches [of 2708 "map Some [1, 2, 3, 4, 5, 6, 7, 8, 9, 10, 11, 12]"]
  by (simp add: batch_size_def np_mean_def fl_sum_def fl_add_def fl_div_real_def fl_div_def)

section \<open>Hard assignment\<close>











section \<open>Responsibilities\<close>









section \<open>Empty clusters\<close>

text \<open>
  Claim C6, amended. In a K-Means iteration in which some cluster receives no member while
  the cluster with the highest index receives at least one, the centroid recomputation
  succeeds; for the empty cluster the count and the summed weights are both zero in every
  dimension, and the division stores NaN in every coordinate of its centroid.
\<close>

theorem empty_cluster_centroid_nan:
  assumes "x \<noteq> []" and "list_all (\<lambda>row. length row = length (hd x)) c"
    and "list_all (\<lambda>l. l < length c) cl" and "length c - 1 \<in> set cl"
    and "k < length c" and "k \<notin> set cl" and "d < length (hd x)"
  shows "\<exists>c'. update_centroids x cl c = Inr c'
            \<and> bincount cl ! k = 0 \<and> bincount_w cl (map (\<lambda>r. r ! d) x) ! k = 0
            \<and> c' ! k ! d = None"
proof -
  have ne: "cl \<noteq> []" using assms(4) by auto
  have "foldr max cl 0 \<le> length c - 1"
    using assms(3) by (intro foldr_max_le) (auto simp: list_all_iff)
  moreover have "length c - 1 \<le> foldr max cl 0" using assms(4) by (rule foldr_max_ge)
  ultimately have lb: "length (bincount cl) = length c"
    using assms(5) by (simp add: length_bincount [OF ne])
  from update_dims_full [OF lb, of x "[0 ..< length (hd x)]"] obtain c' where
    r: "update_dims x cl [0 ..< length (hd x)] c = Inr c'"
    and inv: "\<forall>j<length c. length (c' ! j) = length (c ! j)
                \<and> (\<forall>e. c' ! j ! e =
                      (if e \<in> set [0 ..< length (hd x)] \<and> e < length (c ! j)
                       then fl_div (bincount_w cl (map (\<lambda>r. r ! e) x) ! j) (real (bincount cl ! j))
                       else c ! j ! e))"
    by blast
  have kb: "k < length (bincount cl)" using lb assms(5) by simp
  have z: "bincount cl ! k = 0" using kb assms(6) by (rule bincount_empty_bin)
  have zw: "bincount_w cl (map (\<lambda>r. r ! d) x) ! k = 0" using kb assms(6) by (rule bincount_w_empty_bin)
  have "length (c ! k) = length (hd x)"
    using assms(2,5) by (simp add: list_all_length)
  with inv assms(5,7) have "c' ! k ! d = fl_div (bincount_w cl (map (\<lambda>r. r ! d) x) ! k) (real (bincount cl ! k))"
    by simp
  then have "c' ! k ! d = None" using z by (simp add: fl_div_def)
  with r z zw show ?thesis by (simp add: update_centroids_def)
qed

theorem empty_cluster_centroid_nan_witness:
  "update_centroids [[0, 5], [2, 7], [4, 9]] [0, 2, 2] [[Some 0, Some 5], [Some 2, Some 7], [Some 4, Some 9]]
     = Inr [[Some 0, Some 5], [None, None], [Some 3, Some 8]]
   \<and> bincount [0, 2, 2] ! 1 = 0"
  using empty_cluster_centroid_nan [of "[[0, 5], [2, 7], [4, 9]]"
          "[[Some 0, Some 5], [Some 2, Some 7], [Some 4, Some 9]]" "[0, 2, 2]" 1 0]
  by (simp add: update_centroids_def assign_col_def bincount_def bincount_w_def fl_div_def
      upt_conv_Cons)

text \<open>
  Claim C6 as stated fails. When every sample is assigned to cluster 0, \<open>bincount\<close> has
  a single bin, no division by a zero count takes place, and the single mean is broadcast
  to every centroid: the clusters without members receive a finite centroid. This happens
  on the batch \<open>degenerate_batch\<close> with seven centroids, and on three points of dimension
  one with two centroids.
\<close>

theorem empty_cluster_centroid_nan_counterexample:
  "kmeans_iter degenerate_batch (replicate 7 (replicate D (Some 0)))
     = Inr (replicate 9 0, degenerate_pi, replicate 7 (replicate D (Some 0)))
   \<and> kmeans_iter [[0], [0], [3]] [[Some 0], [Some 0]]
     = Inr ([0, 0, 0], [[1, 1], [1, 1], [0, 0]], [[Some 1], [Some 1]])"
proof -
  have "kmeans_iter [[0], [0], [3]] [[Some 0], [Some 0]]
          = Inr ([0, 0, 0], [[1, 1], [1, 1], [0, 0]], [[Some 1], [Some 1]])"
    by (simp add: kmeans_iter_def D_ij_def sqdist_def fl_sum_def fl_add_def fl_mul_def
        argmin_dim1_def argmin_row_def fl_less_def normalize_def finite_mat_def finite_row_def
        tmin_def tmax_def update_centroids_def assign_col_def bincount_def bincount_w_def
        fl_div_def)
  with kmeans_iter_degenerate show ?thesis by simp
qed

section \<open>A tensor whose entries are all equal\<close>

lemma kmeans_iter_constant:
  "kmeans_iter constant_batch (replicate 7 (replicate D (Some 1))) = Inl NameError"
proof -
  have d: "D_ij constant_batch (replicate 7 (replicate D (Some 1))) = replicate 8 (replicate 7 (Some 0))"
    by (simp add: D_ij_def constant_batch_def sqdist_replicate)
  have n: "normalize (replicate 8 (replicate 7 (Some 0))) = Inl NameError"
    by (simp add: normalize_def finite_mat_def finite_row_def tmin_def tmax_def numeral_eq_Suc)
  have ne: "replicate 7 (replicate D (Some (1::real))) \<noteq> []" by simp
  show ?thesis
    unfolding kmeans_iter_def Let_def d n using ne by (simp only: if_False sum.case)
qed

text \<open>
  Claim C2. On a tensor whose entries are all equal, \<open>normalize\<close> does not return the
  all-zero tensor: it raises NameError, and so does \<open>KMeans\<close> on a batch of eight equal
  points of dimension \<open>D\<close> with \<open>K\<close> clusters, in its first iteration.
\<close>

theorem normalize_constant_tensor_raises:
  "normalize [[Some 2, Some 2], [Some 2, Some 2]] = Inl NameError
   \<and> KMeans constant_batch K 10 = Inl NameError"
proof -
  have a: "normalize [[Some 2, Some 2], [Some 2, Some 2]] = Inl NameError"
    by (simp add: normalize_def finite_mat_def finite_row_def tmin_def tmax_def)
  have c0: "map (map Some) (take K constant_batch) = replicate 7 (replicate D (Some 1))"
    by (simp add: constant_batch_def K_def)
  have ten: "(10::nat) = Suc 9" by simp
  have "kmeans_loop 10 constant_batch (replicate 7 (replicate D (Some 1))) None = Inl NameError"
    unfolding ten by (rule kmeans_loop_error [OF kmeans_iter_constant])
  then have "KMeans constant_batch K 10 = Inl NameError"
    unfolding KMeans_def c0 by simp
  with a show ?thesis by simp
qed

section \<open>The denominator of gamma\<close>




section \<open>Malformed embedding files\<close>

lemma load_rejects_unsplittable:
  assumes "\<exists>r\<in>set rows. CHR '' '' \<notin> set r \<or> pint (takeWhile (\<lambda>c. c \<noteq> CHR '' '') r) = None"
  shows "skipgram2dict pint pfloat rows = Inl ValueError"
proof (cases "\<exists>r\<in>set rows. CHR '' '' \<notin> set r")
  case True
  then obtain r where "r \<in> set rows" and "CHR '' '' \<notin> set r" by auto
  then have "split_once r \<in> set (map split_once rows)" and "length (split_once r) \<noteq> 2"
    by (simp_all add: split_once_def)
  then have "\<exists>p\<in>set (map split_once rows). length p \<noteq> 2" by blast
  from dict_build_not_pair [OF this] show ?thesis by (simp add: skipgram2dict_def)
next
  case False
  then have all: "\<forall>p\<in>set (map split_once rows). length p = 2"
    by (auto simp: split_once_def)
  from dict_build_keys [OF all, of "[]"] obtain d where
    d: "dict_build [] (map split_once rows) = Inr d"
    and keys: "fst ` set d = hd ` set (map split_once rows)" by auto
  from assms False obtain r where r: "r \<in> set rows"
    and bad: "pint (takeWhile (\<lambda>c. c \<noteq> CHR '' '') r) = None" by auto
  have h: "hd (split_once r) = takeWhile (\<lambda>c. c \<noteq> CHR '' '') r"
    using False r by (simp add: split_once_def)
  have "split_once r \<in> set (map split_once rows)" using r by simp
  then have "hd (split_once r) \<in> hd ` set (map split_once rows)" by (rule imageI)
  then have "takeWhile (\<lambda>c. c \<noteq> CHR '' '') r \<in> fst ` set d"
    unfolding h keys .
  then have "\<exists>p\<in>set d. pint (fst p) = None" using bad by force
  from convert_items_bad_key [OF this] show ?thesis using d by (simp add: skipgram2dict_def)
qed

lemma load_rejects_ragged:
  assumes sp: "\<forall>r\<in>set rows. CHR '' '' \<in> set r"
    and dist: "distinct (map (\<lambda>r. pint (takeWhile (\<lambda>c. c \<noteq> CHR '' '') r)) rows)"
    and a: "a \<in> set rows" and b: "b \<in> set rows"
    and ne: "length (split_all a) \<noteq> length (split_all b)"
  shows "load_embeddings pint pfloat (header # rows) = Inl ValueError"
proof -
  let ?key = "\<lambda>r. takeWhile (\<lambda>c. c \<noteq> CHR '' '') r"
  let ?rest = "\<lambda>r. tl (dropWhile (\<lambda>c. c \<noteq> CHR '' '') r)"
  let ?d = "map (\<lambda>r. (?key r, ?rest r)) rows"
  have "map (\<lambda>r. pint (?key r)) rows = map pint (map ?key rows)" by simp
  then have dk: "distinct (map ?key rows)" using dist by (metis distinct_map)
  have d: "dict_build [] (map split_once rows) = Inr ?d"
    using dict_build_distinct [OF sp dk, of "[]"] by simp
  have dd: "distinct (map (\<lambda>p. pint (fst p)) ?d)" using dist by (simp add: comp_def)
  have fresh: "\<forall>p\<in>set ?d. pint (fst p) \<notin> set (map (\<lambda>q. Some (fst q)) [])" by simp
  from convert_items_distinct [OF dd fresh, of pfloat]
  show ?thesis
  proof
    assume "convert_items pint pfloat [] ?d = Inl ValueError"
    then show ?thesis using d by (simp add: load_embeddings_def skipgram2dict_def)
  next
    assume "\<exists>d'. convert_items pint pfloat [] ?d = Inr ([] @ d')
              \<and> map (\<lambda>q. length (snd q)) d' = map (\<lambda>p. length (split_all (snd p))) ?d"
    then obtain d' where c: "convert_items pint pfloat [] ?d = Inr d'"
      and l: "map (\<lambda>q. length (snd q)) d' = map (\<lambda>r. length (split_all (?rest r))) rows"
      by (auto simp: comp_def)
    have fields: "length (split_all r) = Suc (length (split_all (?rest r)))" if "r \<in> set rows" for r
      using split_all_first_field [of r] sp that by simp
    have lens: "length ` set (map snd d') = (\<lambda>r. length (split_all (?rest r))) ` set rows"
    proof -
      have "set (map (\<lambda>q. length (snd q)) d') = set (map (\<lambda>r. length (split_all (?rest r))) rows)"
        by (simp only: l)
      then show ?thesis by (simp add: image_image)
    qed
    have "length (split_all (?rest a)) \<in> length ` set (map snd d')"
      and "length (split_all (?rest b)) \<in> length ` set (map snd d')"
      using a b lens by auto
    then obtain va vb where va: "va \<in> set (map snd d')" "length va = length (split_all (?rest a))"
      and vb: "vb \<in> set (map snd d')" "length vb = length (split_all (?rest b))"
      by (metis (no_types, lifting) image_iff)
    have "length va \<noteq> length vb" using ne fields [OF a] fields [OF b] va(2) vb(2) by simp
    have sorted: "set (map snd (sort_key fst d')) = set (map snd d')" by simp
    have "float_tensor (map snd (sort_key fst d')) = Inl ValueError"
      by (rule float_tensor_ragged [of va _ vb])
         (use va(1) vb(1) sorted \<open>length va \<noteq> length vb\<close> in auto)
    then show ?thesis using d c by (simp add: load_embeddings_def skipgram2dict_def)
  qed
qed

text \<open>
  Claim C5, amended. If a data row of the embedding file holds no space (it has fewer than
  two fields), or if the text before its first space is not accepted by \<open>int\<close>, or if,
  the node ids of the rows being pairwise different, two data rows have different numbers
  of fields, then loading raises ValueError; this happens in the loading cell, before any
  training step.
\<close>

theorem load_rejects_malformed_rows:
  assumes "lines = header # rows"
    and "(\<exists>r\<in>set rows. CHR '' '' \<notin> set r \<or> pint (takeWhile (\<lambda>c. c \<noteq> CHR '' '') r) = None)
         \<or> (distinct (map (\<lambda>r. pint (takeWhile (\<lambda>c. c \<noteq> CHR '' '') r)) rows)
            \<and> (\<exists>a\<in>set rows. \<exists>b\<in>set rows. length (split_all a) \<noteq> length (split_all b)))"
  shows "load_embeddings pint pfloat lines = Inl ValueError"
proof (cases "\<exists>r\<in>set rows. CHR '' '' \<notin> set r \<or> pint (takeWhile (\<lambda>c. c \<noteq> CHR '' '') r) = None")
  case True
  from load_rejects_unsplittable [OF this] show ?thesis
    by (simp add: load_embeddings_def assms(1))
next
  case False
  then have sp: "\<forall>r\<in>set rows. CHR '' '' \<in> set r" by auto
  from False assms(2) obtain a b where
    dist: "distinct (map (\<lambda>r. pint (takeWhile (\<lambda>c. c \<noteq> CHR '' '') r)) rows)"
    and ab: "a \<in> set rows" "b \<in> set rows" "length (split_all a) \<noteq> length (split_all b)"
    by blast
  from load_rejects_ragged [OF sp dist ab] show ?thesis by (simp add: assms(1))
qed

theorem load_rejects_malformed_rows_witness:
  "load_embeddings dec_int dec_float [''2 2'', ''0 1.5 2.5'', ''1 3.5''] = Inl ValueError
   \<and> load_embeddings dec_int dec_float [''2 1'', ''0 1.5'', ''7''] = Inl ValueError"
proof -
  have d: "distinct (map (\<lambda>r. dec_int (takeWhile (\<lambda>c. c \<noteq> CHR '' '') r)) [''0 1.5 2.5'', ''1 3.5''])"
    by (simp add: dec_int_def dec_nat_def strip_def is_space_def digit_def)
  have "length (split_all ''0 1.5 2.5'') \<noteq> length (split_all ''1 3.5'')" by simp
  then have r: "\<exists>a\<in>set [''0 1.5 2.5'', ''1 3.5'']. \<exists>b\<in>set [''0 1.5 2.5'', ''1 3.5''].
                  length (split_all a) \<noteq> length (split_all b)"
    by (intro bexI [of _ "''0 1.5 2.5''"] bexI [of _ "''1 3.5''"]) simp_all
  have one: "load_embeddings dec_int dec_float [''2 2'', ''0 1.5 2.5'', ''1 3.5''] = Inl ValueError"
    by (rule load_rejects_malformed_rows [OF refl]) (use d r in blast)
  have "CHR '' '' \<notin> set ''7''" by simp
  then have "\<exists>r\<in>set [''0 1.5'', ''7''].
               CHR '' '' \<notin> set r \<or> dec_int (takeWhile (\<lambda>c. c \<noteq> CHR '' '') r) = None"
    by (intro bexI [of _ "''7''"]) simp_all
  then have two: "load_embeddings dec_int dec_float [''2 1'', ''0 1.5'', ''7''] = Inl ValueError"
    by (intro load_rejects_malformed_rows [OF refl] disjI1)
  from one two show ?thesis by simp
qed

text \<open>
  Claim C5 as stated fails: the loader never compares the number of fields of a row with
  \<open>D + 1\<close>. A file whose rows all hold a node id and one coordinate is loaded into a
  matrix with one column, sorted by node id. A row is also dropped without an error when a
  later row repeats its node id: the second file holds rows of two and of three fields
  and is loaded.
\<close>

theorem load_rejects_short_rows_counterexample:
  "length (split_all (''1 2.5'' @ [CHR 0x0A])) < D + 1
   \<and> load_embeddings dec_int dec_float two_field_file = Inr [[3 / 2], [5 / 2]]
   \<and> length (split_all (''1 9'' @ [CHR 0x0A])) < D + 1
   \<and> load_embeddings dec_int dec_float duplicate_id_file = Inr [[3 / 2, 9 / 2], [5 / 2, 7 / 2]]"
  by (simp add: D_def load_embeddings_def two_field_file_def duplicate_id_file_def
      skipgram2dict_def split_once_def dict_set_def vectorize_def dec_int_def dec_float_def
      dec_ufloat_def dec_nat_def strip_def is_space_def digit_def float_tensor_def)


section \<open>The training step on the network output\<close>

text \<open>
  Claim C10 does not hold of the code: no training step returns a loss. The training loop
  passes the \<open>nn.Sequential\<close> network to \<open>compute_loss\<close>; its output requires grad, and
  \<open>gmm.predict_proba(X)\<close> raises RuntimeError when it converts that tensor to an array,
  before gamma, the mixing weights or the loss are computed. This holds for every batch,
  every network function and every state of the mixture.
\<close>

theorem compute_loss_raises_on_network_output:
  "compute_loss lib (nn_sequential forward) gmm X_batch pim psi Sigma_in = Inl RuntimeError"
  by (simp add: compute_loss_def nn_sequential_def numpy_def Let_def)


section \<open>Posteriors and the refit of the mixture\<close>




end
